theory Spec2Isabelle
  imports
    Complex_Main
    "HOL-Library.Sublist"
    "HOL-Library.Word"
    "HOL-Library.Char_ord"
    "HOL-Library.List_Lexorder"
begin

unbundle bit_operations_syntax

section \<open>Errors\<close>

text \<open>
  The exceptions of \<^verbatim>\<open>backend/main.py\<close> as values. \<open>ValueError\<close> and \<open>HTTPException\<close>
  carry the message (and status code) the source gives them.
\<close>

datatype error =
    ValueError string
  | ZeroDivisionError
  | BadZipFile string
  | OSError
  | TimeoutExpired
  | HTTPException nat string

section \<open>Python string operations\<close>

text \<open>
  A Python \<open>str\<close> is modelled as a \<open>string\<close>; a character stands for the code point of
  the same number, so the model covers the strings whose code points are below 256.
\<close>

definition lower_char :: "char \<Rightarrow> char" where
  "lower_char c =
     (let n = (of_char c :: nat)
      in if (65 \<le> n \<and> n \<le> 90) \<or> (192 \<le> n \<and> n \<le> 222 \<and> n \<noteq> 215)
         then char_of (n + 32) else c)"

definition lower :: "string \<Rightarrow> string" where
  "lower s = map lower_char s"

text \<open>\<open>s.split(c)\<close> for a one-character separator: the pieces between the separators.\<close>

fun split :: "char \<Rightarrow> string \<Rightarrow> string list" where
  "split c [] = [[]]"
| "split c (x # xs) =
     (if x = c then [] # split c xs
      else (case split c xs of [] \<Rightarrow> [[x]] | y # ys \<Rightarrow> (x # y) # ys))"

text \<open>\<open>s.partition(c)\<close>: the text before the first \<open>c\<close>, whether there is one, the text after it.\<close>

definition partition_str :: "char \<Rightarrow> string \<Rightarrow> string \<times> bool \<times> string" where
  "partition_str c s =
     (if c \<in> set s then (takeWhile (\<lambda>x. x \<noteq> c) s, True, drop 1 (dropWhile (\<lambda>x. x \<noteq> c) s))
      else (s, False, []))"

text \<open>\<open>s.rpartition(c)\<close>: the same around the last \<open>c\<close>; without one, the text comes last.\<close>

definition rpartition :: "char \<Rightarrow> string \<Rightarrow> string \<times> bool \<times> string" where
  "rpartition c s =
     (if c \<in> set s
      then (rev (drop 1 (dropWhile (\<lambda>x. x \<noteq> c) (rev s))), True, rev (takeWhile (\<lambda>x. x \<noteq> c) (rev s)))
      else ([], False, s))"

definition endswith :: "string \<Rightarrow> string \<Rightarrow> bool" where
  "endswith s t = suffix t s"

definition startswith :: "string \<Rightarrow> string \<Rightarrow> bool" where
  "startswith s t = prefix t s"

section \<open>urllib.parse.urlparse\<close>

text \<open>
  \<open>normalize_repo_url\<close> calls the standard library's \<open>urlparse\<close>. It is transcribed here from
  CPython's \<^verbatim>\<open>urllib/parse.py\<close> (\<open>urlsplit\<close>, \<open>_splitnetloc\<close>, \<open>_splitparams\<close>, \<open>urlparse\<close> and
  the \<open>username\<close> and \<open>password\<close> properties), for \<open>str\<close> input and the default arguments.

  Two parts of the library are not transcribed. The validation of a bracketed host
  (\<open>_check_bracketed_host\<close>, which parses IP literals and differs between releases) is the
  parameter \<open>chk\<close>: it is given the network location and answers \<open>Some msg\<close> when the library
  raises \<open>ValueError(msg)\<close>. \<open>_checknetloc\<close> rejects a network location only when its NFKC
  normal form gains one of \<open>/?#@:\<close>; no code point below 256 normalises to these, so on the
  strings of this model it never raises.
\<close>

record ParseResult =
  scheme :: string
  netloc :: string
  path :: string
  params :: string
  query :: string
  fragment :: string

definition WHATWG_C0_CONTROL_OR_SPACE :: "char \<Rightarrow> bool" where
  "WHATWG_C0_CONTROL_OR_SPACE c \<longleftrightarrow> (of_char c :: nat) \<le> 32"

definition UNSAFE_URL_BYTES_TO_REMOVE :: "char set" where
  "UNSAFE_URL_BYTES_TO_REMOVE = {CHR 0x09, CHR 0x0D, CHR 0x0A}"

definition is_ascii_alpha :: "char \<Rightarrow> bool" where
  "is_ascii_alpha c \<longleftrightarrow>
     (let n = (of_char c :: nat) in (65 \<le> n \<and> n \<le> 90) \<or> (97 \<le> n \<and> n \<le> 122))"

definition scheme_chars :: "char \<Rightarrow> bool" where
  "scheme_chars c \<longleftrightarrow>
     (let n = (of_char c :: nat)
      in (65 \<le> n \<and> n \<le> 90) \<or> (97 \<le> n \<and> n \<le> 122) \<or> (48 \<le> n \<and> n \<le> 57)
         \<or> c = CHR ''+'' \<or> c = CHR ''-'' \<or> c = CHR ''.'')"

definition uses_params :: "string list" where
  "uses_params = ['''', ''ftp'', ''hdl'', ''prospero'', ''http'', ''imap'', ''https'', ''shttp'',
     ''rtsp'', ''rtsps'', ''rtspu'', ''sip'', ''sips'', ''mms'', ''sftp'', ''tel'']"

text \<open>The scheme, when the text before the first colon is one, and the rest of the URL.\<close>

definition split_scheme :: "string \<Rightarrow> string \<times> string" where
  "split_scheme url =
     (let head = takeWhile (\<lambda>x. x \<noteq> CHR '':'') url
      in if CHR '':'' \<in> set url \<and> head \<noteq> [] \<and> is_ascii_alpha (hd url) \<and> list_all scheme_chars head
         then (lower head, drop (length head + 1) url)
         else ([], url))"

text \<open>\<open>_splitnetloc(url, 2)\<close>, given the URL after its two slashes: up to the first of \<open>/?#\<close>.\<close>

definition splitnetloc :: "string \<Rightarrow> string \<times> string" where
  "splitnetloc url =
     (let delim = (\<lambda>x. x = CHR ''/'' \<or> x = CHR ''?'' \<or> x = CHR ''#'')
      in (takeWhile (\<lambda>x. \<not> delim x) url, dropWhile (\<lambda>x. \<not> delim x) url))"

definition urlsplit :: "(string \<Rightarrow> string option) \<Rightarrow> string \<Rightarrow> error + ParseResult" where
  "urlsplit chk url0 =
     (let url1 = dropWhile WHATWG_C0_CONTROL_OR_SPACE url0;
          url2 = filter (\<lambda>x. x \<notin> UNSAFE_URL_BYTES_TO_REMOVE) url1;
          (sch, url3) = split_scheme url2;
          has_netloc = (take 2 url3 = ''//'');
          (loc, url4) = (if has_netloc then splitnetloc (drop 2 url3) else ([], url3));
          open_br = (CHR ''['' \<in> set loc);
          close_br = (CHR '']'' \<in> set loc)
      in if has_netloc \<and> ((open_br \<and> \<not> close_br) \<or> (close_br \<and> \<not> open_br))
         then Inl (ValueError ''Invalid IPv6 URL'')
         else
           (case (if has_netloc \<and> open_br \<and> close_br then chk loc else None) of
              Some msg \<Rightarrow> Inl (ValueError msg)
            | None \<Rightarrow>
                (let (url5, frag) =
                       (if CHR ''#'' \<in> set url4
                        then (takeWhile (\<lambda>x. x \<noteq> CHR ''#'') url4, drop 1 (dropWhile (\<lambda>x. x \<noteq> CHR ''#'') url4))
                        else (url4, []));
                     (url6, qry) =
                       (if CHR ''?'' \<in> set url5
                        then (takeWhile (\<lambda>x. x \<noteq> CHR ''?'') url5, drop 1 (dropWhile (\<lambda>x. x \<noteq> CHR ''?'') url5))
                        else (url5, []))
                 in Inr \<lparr>scheme = sch, netloc = loc, path = url6, params = [], query = qry,
                          fragment = frag\<rparr>)))"

text \<open>
  \<open>_splitparams\<close>: the parameters are what follows the first semicolon of the last path
  segment.
\<close>

definition splitparams :: "string \<Rightarrow> string \<times> string" where
  "splitparams url =
     (if CHR ''/'' \<in> set url
      then (let front = rev (dropWhile (\<lambda>x. x \<noteq> CHR ''/'') (rev url));
                back = rev (takeWhile (\<lambda>x. x \<noteq> CHR ''/'') (rev url))
            in if CHR '';'' \<in> set back
               then (front @ takeWhile (\<lambda>x. x \<noteq> CHR '';'') back,
                     drop 1 (dropWhile (\<lambda>x. x \<noteq> CHR '';'') back))
               else (url, []))
      else (takeWhile (\<lambda>x. x \<noteq> CHR '';'') url, drop 1 (dropWhile (\<lambda>x. x \<noteq> CHR '';'') url)))"

definition urlparse :: "(string \<Rightarrow> string option) \<Rightarrow> string \<Rightarrow> error + ParseResult" where
  "urlparse chk url =
     (case urlsplit chk url of
        Inl e \<Rightarrow> Inl e
      | Inr r \<Rightarrow>
          (if scheme r \<in> set uses_params \<and> CHR '';'' \<in> set (path r)
           then (let (p, ps) = splitparams (path r) in Inr (r\<lparr>path := p, params := ps\<rparr>))
           else Inr r))"

text \<open>The \<open>username\<close> and \<open>password\<close> properties; \<open>None\<close> is Python's \<open>None\<close>.\<close>

definition userinfo :: "ParseResult \<Rightarrow> string option \<times> string option" where
  "userinfo r =
     (case rpartition (CHR ''@'') (netloc r) of
        (info, have_info, _) \<Rightarrow>
          (if have_info
           then (case partition_str (CHR '':'') info of
                   (user, have_password, pass) \<Rightarrow>
                     (Some user, if have_password then Some pass else None))
           else (None, None)))"

definition username :: "ParseResult \<Rightarrow> string option" where
  "username r = fst (userinfo r)"

definition password :: "ParseResult \<Rightarrow> string option" where
  "password r = snd (userinfo r)"

text \<open>Python's truth value of an optional string: \<open>None\<close> and the empty string are false.\<close>

definition truthy :: "string option \<Rightarrow> bool" where
  "truthy v = (case v of None \<Rightarrow> False | Some s \<Rightarrow> s \<noteq> [])"

section \<open>normalize_repo_url\<close>

text \<open>
  \<open>ALLOWED_GIT_HOSTS\<close> is read from the environment when the module is loaded; it is the
  parameter \<open>hosts\<close>.
\<close>

definition normalize_repo_url ::
  "(string \<Rightarrow> string option) \<Rightarrow> string set \<Rightarrow> string \<Rightarrow> error + string" where
  "normalize_repo_url chk hosts repo_url =
     (if length repo_url > 2048 then Inl (ValueError ''Repo URL is too long'')
      else
        (case urlparse chk repo_url of
           Inl e \<Rightarrow> Inl e
         | Inr parsed \<Rightarrow>
             (if scheme parsed \<notin> {''http'', ''https''}
              then Inl (ValueError ''Only http/https repo URLs are allowed'')
              else if truthy (username parsed) \<or> truthy (password parsed)
                      \<or> query parsed \<noteq> [] \<or> fragment parsed \<noteq> []
              then Inl (ValueError ''Repo URL contains unsupported credentials or query params'')
              else
                (let host = lower (hd (split (CHR '':'') (netloc parsed)))
                 in if host \<notin> hosts then Inl (ValueError ''Repo host is not allowed'')
                    else
                      (let parts = filter (\<lambda>part. part \<noteq> []) (split (CHR ''/'') (path parsed))
                       in if length parts < 2
                          then Inl (ValueError ''Repo URL must include owner/repo'')
                          else
                            (let owner = parts ! 0;
                                 repo0 = parts ! 1;
                                 repo = (if endswith repo0 ''.git''
                                         then take (length repo0 - 4) repo0 else repo0)
                             in if owner = [] \<or> repo = []
                                then Inl (ValueError ''Repo URL must include owner/repo'')
                                else Inr (''https://'' @ host @ ''/'' @ owner @ ''/'' @ repo
                                          @ ''.git'')))))))"

subsection \<open>Names for the parts of the result\<close>

text \<open>
  The expressions \<open>normalize_repo_url\<close> computes on the way, named so that statements can
  speak of them: the host it looks up, the non-empty path segments, a repository segment
  without one trailing \<open>.git\<close>, and the string it returns.
\<close>

definition url_host :: "ParseResult \<Rightarrow> string" where
  "url_host p = lower (hd (split (CHR '':'') (netloc p)))"

definition url_parts :: "ParseResult \<Rightarrow> string list" where
  "url_parts p = filter (\<lambda>part. part \<noteq> []) (split (CHR ''/'') (path p))"

definition strip_git :: "string \<Rightarrow> string" where
  "strip_git repo = (if endswith repo ''.git'' then take (length repo - 4) repo else repo)"

definition canonical :: "string \<Rightarrow> string \<Rightarrow> string \<Rightarrow> string" where
  "canonical host owner repo = ''https://'' @ host @ ''/'' @ owner @ ''/'' @ repo @ ''.git''"

text \<open>
  The failure conditions as the contract of the URL validator lists them (section 4.1 of
  the specification): too long, a scheme other than http and https, credentials, a query or
  a fragment, a host outside the allow-list, fewer than two non-empty path segments. The
  conditions on the parts of the URL speak of a URL that has been parsed.
\<close>

definition listed_failure :: "(string \<Rightarrow> string option) \<Rightarrow> string set \<Rightarrow> string \<Rightarrow> bool" where
  "listed_failure chk hosts raw \<longleftrightarrow>
     length raw > 2048 \<or>
     (case urlparse chk raw of
        Inl _ \<Rightarrow> False
      | Inr p \<Rightarrow>
          scheme p \<notin> {''http'', ''https''} \<or> truthy (username p) \<or> truthy (password p)
          \<or> query p \<noteq> [] \<or> fragment p \<noteq> [] \<or> url_host p \<notin> hosts
          \<or> length (url_parts p) < 2)"

text \<open>
  For evaluation: the allow-list the source falls back to when the environment does not
  set \<open>ALLOWED_GIT_HOSTS\<close>, and a library release that validates no bracketed host.
\<close>

definition DEFAULT_ALLOWED_GIT_HOSTS :: "string set" where
  "DEFAULT_ALLOWED_GIT_HOSTS = {''github.com'', ''www.github.com''}"

definition accept_bracketed :: "string \<Rightarrow> string option" where
  "accept_bracketed loc = None"

text \<open>
  URLs of the form \<open>https://{host}/{owner}/{repo}\<close>: the host is a non-empty lower-case
  string and the two segments are non-empty strings, all free of the characters the parser
  gives a meaning to or removes.
\<close>

definition host_form :: "string \<Rightarrow> bool" where
  "host_form h \<longleftrightarrow>
     h \<noteq> [] \<and> lower h = h \<and> set h \<inter> set ''/?#:@[]'' = {}
     \<and> set h \<inter> UNSAFE_URL_BYTES_TO_REMOVE = {}"

definition segment_form :: "string \<Rightarrow> bool" where
  "segment_form s \<longleftrightarrow>
     s \<noteq> [] \<and> set s \<inter> set ''/?#;'' = {} \<and> set s \<inter> UNSAFE_URL_BYTES_TO_REMOVE = {}"

section \<open>Files and directories\<close>

text \<open>
  What the collector walks. A directory is the list of its entries, each with its name, in
  the order \<open>iterdir\<close> yields them. A regular file is its bytes; \<open>LockedFile n\<close> is a regular
  file of \<open>n\<close> bytes that cannot be opened (\<open>open\<close> raises \<open>OSError\<close>). \<open>Special\<close> is an entry that
  is neither a link, a directory nor a regular file (a socket, a named pipe). Listing a
  directory and taking the size of a file always succeed in this model.
\<close>

type_synonym byte = "8 word"

type_synonym bytes = "byte list"

datatype entry =
    File bytes
  | LockedFile nat
  | Dir "(string \<times> entry) list"
  | Symlink
  | Special

text \<open>Decoded text is a sequence of Unicode code points.\<close>

type_synonym unicode = "nat list"

section \<open>Reading a file as text\<close>

text \<open>
  \<open>entry.read_text(encoding='utf-8', errors='replace')\<close> is the standard library's: it decodes
  UTF-8, puts U+FFFD for every ill-formed sequence, and reads in text mode, which turns
  \<open>\r\n\<close> and \<open>\r\<close> into \<open>\n\<close>. The decoder follows CPython's: \<open>decode_one\<close> takes the first byte
  and the bytes after it and gives the code point and how many of the following bytes
  belong to it.
\<close>

definition is_continuation :: "nat \<Rightarrow> bool" where
  "is_continuation b \<longleftrightarrow> 0x80 \<le> b \<and> b < 0xC0"

definition decode_one :: "nat \<Rightarrow> nat list \<Rightarrow> nat \<times> nat" where
  "decode_one ch rest =
     (if ch < 0x80 then (ch, 0)
      else if ch < 0xC2 then (0xFFFD, 0)
      else if ch < 0xE0 then
        (case rest of
           [] \<Rightarrow> (0xFFFD, 0)
         | ch2 # _ \<Rightarrow>
             if \<not> is_continuation ch2 then (0xFFFD, 0)
             else ((ch - 0xC0) * 64 + (ch2 - 0x80), 1))
      else if ch < 0xF0 then
        (case rest of
           [] \<Rightarrow> (0xFFFD, 0)
         | ch2 # rest2 \<Rightarrow>
             if \<not> is_continuation ch2 \<or> (if ch2 < 0xA0 then ch = 0xE0 else ch = 0xED)
             then (0xFFFD, 0)
             else
               (case rest2 of
                  [] \<Rightarrow> (0xFFFD, 1)
                | ch3 # _ \<Rightarrow>
                    if \<not> is_continuation ch3 then (0xFFFD, 1)
                    else ((ch - 0xE0) * 4096 + (ch2 - 0x80) * 64 + (ch3 - 0x80), 2)))
      else if ch < 0xF5 then
        (case rest of
           [] \<Rightarrow> (0xFFFD, 0)
         | ch2 # rest2 \<Rightarrow>
             if \<not> is_continuation ch2 \<or> (if ch2 < 0x90 then ch = 0xF0 else ch = 0xF4)
             then (0xFFFD, 0)
             else
               (case rest2 of
                  [] \<Rightarrow> (0xFFFD, 1)
                | ch3 # rest3 \<Rightarrow>
                    if \<not> is_continuation ch3 then (0xFFFD, 1)
                    else
                      (case rest3 of
                         [] \<Rightarrow> (0xFFFD, 2)
                       | ch4 # _ \<Rightarrow>
                           if \<not> is_continuation ch4 then (0xFFFD, 2)
                           else ((ch - 0xF0) * 262144 + (ch2 - 0x80) * 4096
                                 + (ch3 - 0x80) * 64 + (ch4 - 0x80), 3))))
      else (0xFFFD, 0))"

function utf8_decode :: "nat list \<Rightarrow> unicode" where
  "utf8_decode [] = []"
| "utf8_decode (ch # rest) =
     (case decode_one ch rest of (cp, k) \<Rightarrow> cp # utf8_decode (drop k rest))"
  by pat_completeness auto
termination
  by (relation "measure length") auto

fun universal_newlines :: "unicode \<Rightarrow> unicode" where
  "universal_newlines [] = []"
| "universal_newlines [c] = (if c = 13 then [10] else [c])"
| "universal_newlines (c # d # cs) =
     (if c = 13 \<and> d = 10 then 10 # universal_newlines cs
      else if c = 13 then 10 # universal_newlines (d # cs)
      else c # universal_newlines (d # cs))"

definition read_text :: "bytes \<Rightarrow> unicode" where
  "read_text bs = universal_newlines (utf8_decode (map unat bs))"

section \<open>is_binary_file\<close>

text \<open>
  The argument is what opening and reading the file gives: \<open>None\<close> when that raises
  \<open>OSError\<close>, which the function catches. Python's \<open>/\<close> on integers raises
  \<open>ZeroDivisionError\<close> on a zero divisor; that is a branch of \<open>true_div\<close>.

  The source compares the floating-point quotient with the floating-point literal \<open>0.3\<close>;
  the model compares the exact quotient with \<open>3/10\<close>. The two agree: the quotient of two
  integers is rounded to the nearest double, as is the literal, rounding is monotone, and a
  quotient with a denominator below \<open>2^50\<close> that is not \<open>3/10\<close> differs from it by far more
  than the rounding error.
\<close>

definition text_chars :: "byte \<Rightarrow> bool" where
  "text_chars b \<longleftrightarrow> (32 \<le> b \<and> b < 127) \<or> b = 9 \<or> b = 10 \<or> b = 13"

definition true_div :: "nat \<Rightarrow> nat \<Rightarrow> error + rat" where
  "true_div a b = (if b = 0 then Inl ZeroDivisionError else Inr (of_nat a / of_nat b))"

definition is_binary_file :: "bytes option \<Rightarrow> nat \<Rightarrow> error + bool" where
  "is_binary_file opened sample_size =
     (case opened of
        None \<Rightarrow> Inr True
      | Some bs \<Rightarrow>
          (let chunk = take sample_size bs
           in if chunk = [] then Inr False
              else if 0 \<in> set chunk then Inr True
              else
                (let non_text = length (filter (\<lambda>b. \<not> text_chars b) chunk)
                 in case true_div non_text (length chunk) of
                      Inl e \<Rightarrow> Inl e
                    | Inr ratio \<Rightarrow> Inr (ratio > 3 / 10))))"

section \<open>The tree collector\<close>

definition SKIP_DIRS :: "string set" where
  "SKIP_DIRS = {''.git'', ''node_modules'', ''__pycache__'', ''build'', ''.venv'', ''venv'',
     ''.next'', ''dist'', ''out'', ''coverage'', ''.pytest_cache'', ''.mypy_cache'',
     ''.ruff_cache'', ''.tox'', ''.idea'', ''.vscode'', ''.cache''}"

text \<open>
  A relative path is the list of its parts. Joining a path with the name of a directory
  entry adds one part, and \<open>as_posix\<close> joins the parts with slashes; the empty path is \<open>.\<close>.
\<close>

definition contains_skipped_segment :: "string list \<Rightarrow> bool" where
  "contains_skipped_segment parts = list_ex (\<lambda>part. part \<in> SKIP_DIRS) parts"

fun join :: "string \<Rightarrow> string list \<Rightarrow> string" where
  "join sep [] = []"
| "join sep [s] = s"
| "join sep (s # t # ts) = s @ sep @ join sep (t # ts)"

definition as_posix :: "string list \<Rightarrow> string" where
  "as_posix parts = (if parts = [] then ''.'' else join ''/'' parts)"

text \<open>\<open>s.lstrip(chars)\<close> removes leading characters for as long as they are among \<open>chars\<close>.\<close>

definition lstrip :: "string \<Rightarrow> string \<Rightarrow> string" where
  "lstrip chars s = dropWhile (\<lambda>c. c \<in> set chars) s"

text \<open>
  The dictionaries the collector builds. A tree node has a name, a path and a type, and
  children when it is a directory. A file record is what \<open>ParsedFile\<close> holds; a key the
  collector leaves out is \<open>None\<close>.
\<close>

datatype TreeNode =
    FileNode (tree_name: string) (tree_path: string)
  | DirectoryNode (tree_name: string) (tree_path: string) (children: "TreeNode list")

record ParsedFile =
  rec_path :: string
  rec_size :: nat
  omitted :: bool
  omittedReason :: "string option"
  content :: "unicode option"

text \<open>
  The branch of the loop for a regular file, given its name, its path, its size and what
  opening it gives. \<open>max_file_bytes\<close> is \<open>MAX_FILE_BYTES\<close>, read from the environment.
\<close>

definition collect_file ::
  "int \<Rightarrow> string \<Rightarrow> string \<Rightarrow> nat \<Rightarrow> bytes option \<Rightarrow> error + (TreeNode \<times> ParsedFile)" where
  "collect_file max_file_bytes name node_path st_size opened =
     (case is_binary_file opened 1024 of
        Inl e \<Rightarrow> Inl e
      | Inr True \<Rightarrow>
          Inr (FileNode name node_path,
               \<lparr>rec_path = node_path, rec_size = st_size, omitted = True,
                omittedReason = Some ''binary'', content = None\<rparr>)
      | Inr False \<Rightarrow>
          (if int st_size > max_file_bytes
           then Inr (FileNode name node_path,
                     \<lparr>rec_path = node_path, rec_size = st_size, omitted = True,
                      omittedReason = Some ''large'', content = None\<rparr>)
           else
             (case opened of
                None \<Rightarrow> Inl OSError
              | Some bs \<Rightarrow>
                  Inr (FileNode name node_path,
                       \<lparr>rec_path = node_path, rec_size = st_size, omitted = False,
                        omittedReason = None, content = Some (read_text bs)\<rparr>))))"

text \<open>The sum of the sizes of the entries of a directory, for the termination of the walk.\<close>

fun weight :: "entry \<Rightarrow> nat" where
  "weight (Dir es) = Suc (sum_list (map (\<lambda>p. weight (snd p)) es))"
| "weight _ = 1"

definition weights :: "(string \<times> entry) list \<Rightarrow> nat" where
  "weights es = sum_list (map (\<lambda>p. weight (snd p)) es)"

lemma weight_pos: "0 < weight e"
  by (cases e) auto

lemma weights_insort_key: "weights (insort_key k x xs) = weight (snd x) + weights xs"
  by (induction xs) (auto simp: weights_def)

lemma weights_sort_key: "weights (sort_key k xs) = weights xs"
  by (induction xs) (auto simp: weights_def weights_insort_key [unfolded weights_def])

text \<open>
  \<open>recursively_collect\<close> sorts the entries by their lower-cased names (\<open>sorted\<close> is stable) and
  runs the loop \<open>collect_entries\<close> over them. The loop body handles the first entry and the
  loop goes on with the others; the nodes and records appended by the source come out in
  the same order.
\<close>

function recursively_collect ::
    "int \<Rightarrow> (string \<times> entry) list \<Rightarrow> string list \<Rightarrow> error + (TreeNode list \<times> ParsedFile list)"
  and collect_entries ::
    "int \<Rightarrow> (string \<times> entry) list \<Rightarrow> string list \<Rightarrow> error + (TreeNode list \<times> ParsedFile list)"
where
  "recursively_collect max_file_bytes root_dir rel_path =
     collect_entries max_file_bytes (sort_key (\<lambda>p. lower (fst p)) root_dir) rel_path"
| "collect_entries max_file_bytes [] rel_path = Inr ([], [])"
| "collect_entries max_file_bytes ((name, e) # others) rel_path =
     (if contains_skipped_segment (rel_path @ [name])
      then collect_entries max_file_bytes others rel_path
      else if e = Symlink
      then collect_entries max_file_bytes others rel_path
      else
        (let node_path = lstrip ''./'' (as_posix (rel_path @ [name]))
         in case e of
              Dir es \<Rightarrow>
                (case recursively_collect max_file_bytes es (rel_path @ [name]) of
                   Inl err \<Rightarrow> Inl err
                 | Inr (children_tree, children_files) \<Rightarrow>
                     (case collect_entries max_file_bytes others rel_path of
                        Inl err \<Rightarrow> Inl err
                      | Inr (tree_nodes, file_records) \<Rightarrow>
                          Inr (DirectoryNode name node_path children_tree # tree_nodes,
                               children_files @ file_records)))
            | File bs \<Rightarrow>
                (case collect_file max_file_bytes name node_path (length bs) (Some bs) of
                   Inl err \<Rightarrow> Inl err
                 | Inr (node, record) \<Rightarrow>
                     (case collect_entries max_file_bytes others rel_path of
                        Inl err \<Rightarrow> Inl err
                      | Inr (tree_nodes, file_records) \<Rightarrow>
                          Inr (node # tree_nodes, record # file_records)))
            | LockedFile n \<Rightarrow>
                (case collect_file max_file_bytes name node_path n None of
                   Inl err \<Rightarrow> Inl err
                 | Inr (node, record) \<Rightarrow>
                     (case collect_entries max_file_bytes others rel_path of
                        Inl err \<Rightarrow> Inl err
                      | Inr (tree_nodes, file_records) \<Rightarrow>
                          Inr (node # tree_nodes, record # file_records)))
            | _ \<Rightarrow> collect_entries max_file_bytes others rel_path))"
  by pat_completeness auto
termination
  by (relation "measure (\<lambda>x. case x of
                           Inl (_, es, _) \<Rightarrow> 2 * weights es + 1
                         | Inr (_, es, _) \<Rightarrow> 2 * weights es)")
     (auto simp: weights_sort_key, auto simp: weights_def weight_pos)

subsection \<open>Reading the collector's output\<close>

text \<open>
  A tree node carries the name of its entry, so the path of the entry is the list of names
  on the way down to the node. \<open>locations rel nodes\<close> lists the entry paths of all nodes of a
  tree collected at \<open>rel\<close>, and \<open>file_nodes\<close> lists its file nodes, both in the order of the
  walk.
\<close>

fun locations :: "string list \<Rightarrow> TreeNode list \<Rightarrow> string list list" where
  "locations rel [] = []"
| "locations rel (FileNode name p # nodes) = (rel @ [name]) # locations rel nodes"
| "locations rel (DirectoryNode name p cs # nodes) =
     (rel @ [name]) # locations (rel @ [name]) cs @ locations rel nodes"

fun file_nodes :: "TreeNode list \<Rightarrow> TreeNode list" where
  "file_nodes [] = []"
| "file_nodes (FileNode name p # nodes) = FileNode name p # file_nodes nodes"
| "file_nodes (DirectoryNode name p cs # nodes) = file_nodes cs @ file_nodes nodes"

text \<open>
  The classification of a file as the collector's policy words it: a sample is binary when
  it holds a null byte or when more than 30 percent of its bytes are outside the printable
  and whitespace set.
\<close>

definition binary_sample :: "bytes \<Rightarrow> bool" where
  "binary_sample sample \<longleftrightarrow>
     0 \<in> set sample
     \<or> 30 * length sample < 100 * length (filter (\<lambda>b. \<not> text_chars b) sample)"

text \<open>The record the loop appends for a regular file that can be opened.\<close>

definition record_of_file :: "int \<Rightarrow> string \<Rightarrow> bytes \<Rightarrow> ParsedFile" where
  "record_of_file m p bs =
     (if binary_sample (take 1024 bs)
      then \<lparr>rec_path = p, rec_size = length bs, omitted = True,
            omittedReason = Some ''binary'', content = None\<rparr>
      else if int (length bs) > m
      then \<lparr>rec_path = p, rec_size = length bs, omitted = True,
            omittedReason = Some ''large'', content = None\<rparr>
      else \<lparr>rec_path = p, rec_size = length bs, omitted = False,
            omittedReason = None, content = Some (read_text bs)\<rparr>)"

section \<open>The archive sanitizer\<close>

text \<open>
  An archive as \<open>zipfile.ZipFile\<close> presents it: the members in the order of \<open>infolist()\<close>, each
  with the fields the source reads and the bytes the reader yields for it when it is
  extracted. Opening a file that is no archive raises \<open>BadZipFile\<close>.
\<close>

record ZipInfo =
  filename :: string
  external_attr :: "32 word"
  file_size :: int

datatype zip_source =
    NotAZip string
  | Archive "(ZipInfo \<times> bytes) list"

definition is_symlink :: "ZipInfo \<Rightarrow> bool" where
  "is_symlink info \<longleftrightarrow> drop_bit 16 (external_attr info) AND 0xF000 = 0xA000"

subsection \<open>Paths\<close>

text \<open>
  \<open>pathlib\<close> on POSIX, for an absolute directory given by its parts. A path string splits at
  slashes into parts, empty parts and \<open>.\<close> dropped; joining with an absolute path gives that
  path. \<open>resolve\<close> removes \<open>..\<close> together with the part before it; the model takes no part of
  the paths involved to be a symbolic link (the archive is checked before anything is
  extracted into the fresh workspace). \<open>str_path\<close> is \<open>str\<close> of an absolute path.
\<close>

definition path_parts :: "string \<Rightarrow> string list" where
  "path_parts s = filter (\<lambda>part. part \<noteq> [] \<and> part \<noteq> ''.'') (split (CHR ''/'') s)"

definition joinpath :: "string list \<Rightarrow> string \<Rightarrow> string list" where
  "joinpath base s = (if startswith s ''/'' then path_parts s else base @ path_parts s)"

definition resolve :: "string list \<Rightarrow> string list" where
  "resolve parts = foldl (\<lambda>done part. if part = ''..'' then butlast done else done @ [part]) [] parts"

definition str_path :: "string list \<Rightarrow> string" where
  "str_path parts = ''/'' @ join ''/'' parts"

subsection \<open>The checks\<close>

text \<open>
  The loop of \<open>safe_extract_zip\<close> over the members, with the running total as an argument;
  \<open>root_parts\<close> is the resolved destination.
\<close>

fun check_members :: "string list \<Rightarrow> int \<Rightarrow> int \<Rightarrow> ZipInfo list \<Rightarrow> error + unit" where
  "check_members root_parts max_total_bytes total_size [] = Inr ()"
| "check_members root_parts max_total_bytes total_size (member # members) =
     (if is_symlink member then Inl (ValueError ''Zip contains symlinks'')
      else if \<not> startswith (str_path (resolve (joinpath root_parts (filename member))))
                             (str_path root_parts)
      then Inl (ValueError ''Zip contains invalid paths'')
      else if file_size member < 0 then Inl (ValueError ''Zip contains invalid file size'')
      else if total_size + file_size member > max_total_bytes
      then Inl (ValueError ''Zip exceeds allowed total size'')
      else check_members root_parts max_total_bytes (total_size + file_size member) members)"

subsection \<open>Extraction\<close>

text \<open>
  \<open>ZipFile.extractall\<close> is the standard library's; the model follows \<open>_extract_member\<close> on
  POSIX. The name of a member loses its empty, \<open>.\<close> and \<open>..\<close> parts; a name ending in a slash
  makes a directory, any other a file holding the member's bytes; missing parent
  directories are made. The destination is the list of its entries. A name used twice
  refers to its last member, as \<open>getinfo\<close> does. A file where a directory is needed, and a
  directory where a file is to be written, raise \<open>OSError\<close>.
\<close>

definition replace_entry :: "string \<Rightarrow> entry \<Rightarrow> (string \<times> entry) list \<Rightarrow> (string \<times> entry) list" where
  "replace_entry n v es = map (\<lambda>p. if fst p = n then (n, v) else p) es"

fun makedirs :: "string list \<Rightarrow> (string \<times> entry) list \<Rightarrow> error + (string \<times> entry) list" where
  "makedirs [] es = Inr es"
| "makedirs (d # ds) es =
     (case map_of es d of
        None \<Rightarrow>
          (case makedirs ds [] of
             Inl err \<Rightarrow> Inl err
           | Inr sub \<Rightarrow> Inr (es @ [(d, Dir sub)]))
      | Some (Dir sub) \<Rightarrow>
          (case makedirs ds sub of
             Inl err \<Rightarrow> Inl err
           | Inr sub' \<Rightarrow> Inr (replace_entry d (Dir sub') es))
      | Some _ \<Rightarrow> Inl OSError)"

fun write_file :: "string list \<Rightarrow> bytes \<Rightarrow> (string \<times> entry) list \<Rightarrow> error + (string \<times> entry) list" where
  "write_file [] bs es = Inl OSError"
| "write_file [n] bs es =
     (case map_of es n of
        None \<Rightarrow> Inr (es @ [(n, File bs)])
      | Some (File _) \<Rightarrow> Inr (replace_entry n (File bs) es)
      | Some _ \<Rightarrow> Inl OSError)"
| "write_file (d # ds) bs es =
     (case map_of es d of
        None \<Rightarrow>
          (case write_file ds bs [] of
             Inl err \<Rightarrow> Inl err
           | Inr sub \<Rightarrow> Inr (es @ [(d, Dir sub)]))
      | Some (Dir sub) \<Rightarrow>
          (case write_file ds bs sub of
             Inl err \<Rightarrow> Inl err
           | Inr sub' \<Rightarrow> Inr (replace_entry d (Dir sub') es))
      | Some _ \<Rightarrow> Inl OSError)"

definition arcname_parts :: "string \<Rightarrow> string list" where
  "arcname_parts name =
     filter (\<lambda>x. x \<noteq> [] \<and> x \<noteq> ''.'' \<and> x \<noteq> ''..'') (split (CHR ''/'') name)"

definition getinfo :: "(ZipInfo \<times> bytes) list \<Rightarrow> string \<Rightarrow> (ZipInfo \<times> bytes) option" where
  "getinfo archive name =
     (case filter (\<lambda>m. filename (fst m) = name) archive of
        [] \<Rightarrow> None
      | m # ms \<Rightarrow> Some (last (m # ms)))"

definition extract_member ::
  "(ZipInfo \<times> bytes) list \<Rightarrow> string \<Rightarrow> (string \<times> entry) list \<Rightarrow> error + (string \<times> entry) list" where
  "extract_member archive name es =
     (case getinfo archive name of
        None \<Rightarrow> Inl OSError
      | Some (info, bs) \<Rightarrow>
          (if endswith (filename info) ''/'' then makedirs (arcname_parts (filename info)) es
           else write_file (arcname_parts (filename info)) bs es))"

text \<open>
  The members are extracted in order. An exception stops the extraction and leaves what
  has been written: the result is the outcome together with the destination as it then is.
\<close>

fun extract_names ::
  "(ZipInfo \<times> bytes) list \<Rightarrow> string list \<Rightarrow> (string \<times> entry) list
     \<Rightarrow> (error + unit) \<times> (string \<times> entry) list" where
  "extract_names archive [] es = (Inr (), es)"
| "extract_names archive (name # names) es =
     (case extract_member archive name es of
        Inl err \<Rightarrow> (Inl err, es)
      | Inr es' \<Rightarrow> extract_names archive names es')"

definition extractall ::
  "(ZipInfo \<times> bytes) list \<Rightarrow> (string \<times> entry) list \<Rightarrow> (error + unit) \<times> (string \<times> entry) list" where
  "extractall archive es = extract_names archive (map (\<lambda>m. filename (fst m)) archive) es"

subsection \<open>safe_extract_zip\<close>

text \<open>
  The function takes what opening \<open>source_file\<close> gives, the resolved destination, the
  ceiling, and the entries of the destination; it returns its outcome and the entries of
  the destination afterwards.
\<close>

definition safe_extract_zip ::
  "zip_source \<Rightarrow> string list \<Rightarrow> int \<Rightarrow> (string \<times> entry) list
     \<Rightarrow> (error + unit) \<times> (string \<times> entry) list" where
  "safe_extract_zip source_file destination max_total_bytes es =
     (case source_file of
        NotAZip msg \<Rightarrow> (Inl (BadZipFile msg), es)
      | Archive archive \<Rightarrow>
          (case check_members destination max_total_bytes 0 (map fst archive) of
             Inl err \<Rightarrow> (Inl err, es)
           | Inr _ \<Rightarrow> extractall archive es))"

text \<open>
  What staying within the destination means for a member: the parts of its resolved path
  begin with the parts of the destination.
\<close>

definition stays_within :: "string list \<Rightarrow> string \<Rightarrow> bool" where
  "stays_within root_parts name \<longleftrightarrow> prefix root_parts (resolve (joinpath root_parts name))"

section \<open>The ingestion orchestrator\<close>





record ParsedResponse =
  files :: "ParsedFile list"
  tree :: "TreeNode list"


subsection \<open>stream_upload_to_file\<close>




subsection \<open>clone_repository\<close>





subsection \<open>parse_repo\<close>








section \<open>Properties of the URL validator\<close>

subsection \<open>Auxiliary facts\<close>

lemma split_no_sep: "c \<notin> set s \<Longrightarrow> split c s = [s]"
  by (induction s) auto

lemma split_append_sep: "c \<notin> set xs \<Longrightarrow> split c (xs @ c # ys) = xs # split c ys"
  by (induction xs) auto

lemma split_not_Nil: "split c s \<noteq> []"
  by (induction s) (auto split: list.splits)

lemma urlsplit_stages:
  assumes "dropWhile WHATWG_C0_CONTROL_OR_SPACE u = u"
    and "filter (\<lambda>x. x \<notin> UNSAFE_URL_BYTES_TO_REMOVE) u = u"
    and "split_scheme u = (sch, ''//'' @ u3)"
    and "splitnetloc u3 = (loc, u4)"
    and "CHR ''['' \<notin> set loc" and "CHR '']'' \<notin> set loc"
    and "CHR ''#'' \<notin> set u4" and "CHR ''?'' \<notin> set u4"
  shows "urlsplit chk u = Inr \<lparr>scheme = sch, netloc = loc, path = u4, params = [], query = [], fragment = []\<rparr>"
  using assms by (simp add: urlsplit_def)

lemma urlparse_form:
  assumes h: "host_form h" and o: "segment_form ow" and r: "segment_form r"
  shows "urlparse chk (''https://'' @ h @ ''/'' @ ow @ ''/'' @ r)
         = Inr \<lparr>scheme = ''https'', netloc = h, path = ''/'' @ ow @ ''/'' @ r, params = [], query = [], fragment = []\<rparr>"
proof -
  let ?u = "''https://'' @ h @ ''/'' @ ow @ ''/'' @ r"
  let ?rest = "''/'' @ ow @ ''/'' @ r"
  have hs: "\<And>x. x \<in> set h \<Longrightarrow> x \<noteq> CHR ''/'' \<and> x \<noteq> CHR ''?'' \<and> x \<noteq> CHR ''#'' \<and> x \<noteq> CHR ''['' \<and> x \<noteq> CHR '']''
             \<and> x \<notin> UNSAFE_URL_BYTES_TO_REMOVE"
    using h by (auto simp: host_form_def)
  have os: "\<And>x. x \<in> set ow \<Longrightarrow> x \<noteq> CHR ''?'' \<and> x \<noteq> CHR ''#'' \<and> x \<noteq> CHR '';'' \<and> x \<notin> UNSAFE_URL_BYTES_TO_REMOVE"
    using o by (auto simp: segment_form_def)
  have rs: "\<And>x. x \<in> set r \<Longrightarrow> x \<noteq> CHR ''?'' \<and> x \<noteq> CHR ''#'' \<and> x \<noteq> CHR '';'' \<and> x \<notin> UNSAFE_URL_BYTES_TO_REMOVE"
    using r by (auto simp: segment_form_def)
  have f: "filter (\<lambda>x. x \<notin> UNSAFE_URL_BYTES_TO_REMOVE) ?u = ?u"
    using hs os rs by (auto simp: filter_id_conv UNSAFE_URL_BYTES_TO_REMOVE_def)
  have d: "dropWhile WHATWG_C0_CONTROL_OR_SPACE ?u = ?u"
    by (simp add: WHATWG_C0_CONTROL_OR_SPACE_def)
  have s: "split_scheme ?u = (''https'', ''//'' @ (h @ ?rest))"
    by (simp add: split_scheme_def is_ascii_alpha_def scheme_chars_def lower_def lower_char_def)
  have n: "splitnetloc (h @ ?rest) = (h, ?rest)"
    using hs by (simp add: splitnetloc_def)
  have b: "CHR ''['' \<notin> set h" "CHR '']'' \<notin> set h" using hs by auto
  have q: "CHR ''#'' \<notin> set ?rest" "CHR ''?'' \<notin> set ?rest" "CHR '';'' \<notin> set ?rest"
    using os rs by auto
  have "urlsplit chk ?u = Inr \<lparr>scheme = ''https'', netloc = h, path = ?rest, params = [], query = [], fragment = []\<rparr>"
    by (rule urlsplit_stages [OF d f s n b q(1,2)])
  then show ?thesis
    using q(3) by (simp add: urlparse_def)
qed

lemma strip_git_append: "strip_git (s @ ''.git'') = s"
proof -
  have "suffix ''.git'' (s @ ''.git'')"
    by (rule suffixI [of _ s]) simp
  then show ?thesis
    by (simp add: strip_git_def endswith_def)
qed

lemma set_strip_git: "set (strip_git s) \<subseteq> set s"
  by (auto simp: strip_git_def dest: in_set_takeD)

lemma length_strip_git: "length s \<le> length (strip_git s) + 4"
  by (auto simp: strip_git_def endswith_def dest: suffix_length_le)

lemma normalize_parsed:
  assumes "length u \<le> 2048"
    and "urlparse chk u = Inr p"
    and "scheme p = ''http'' \<or> scheme p = ''https''"
    and "\<not> truthy (username p)" and "\<not> truthy (password p)"
    and "query p = []" and "fragment p = []"
    and "url_host p \<in> hosts"
    and "2 \<le> length (url_parts p)"
    and "strip_git (url_parts p ! 1) \<noteq> []"
  shows "normalize_repo_url chk hosts u
         = Inr (canonical (url_host p) (url_parts p ! 0) (strip_git (url_parts p ! 1)))"
proof -
  have "url_parts p ! 0 \<in> set (url_parts p)"
    using assms(9) by (cases "url_parts p") auto
  then have "url_parts p ! 0 \<noteq> []"
    by (simp add: url_parts_def)
  then show ?thesis
    using assms
    by (simp add: normalize_repo_url_def url_host_def [symmetric] url_parts_def [symmetric]
        strip_git_def [symmetric] canonical_def Let_def del: append.simps)
qed

lemma normalize_form:
  assumes h: "host_form h" and hin: "h \<in> hosts" and o: "segment_form ow" and r: "segment_form r"
    and g: "strip_git r \<noteq> []"
    and len: "length (''https://'' @ h @ ''/'' @ ow @ ''/'' @ r) \<le> 2048"
  shows "normalize_repo_url chk hosts (''https://'' @ h @ ''/'' @ ow @ ''/'' @ r)
         = Inr (canonical h ow (strip_git r))"
proof -
  define p where "p = \<lparr>scheme = ''https'', netloc = h, path = ''/'' @ ow @ ''/'' @ r, params = [], query = [], fragment = []\<rparr>"
  have pr: "urlparse chk (''https://'' @ h @ ''/'' @ ow @ ''/'' @ r) = Inr p"
    unfolding p_def by (rule urlparse_form [OF h o r])
  have c: "CHR '':'' \<notin> set h" "CHR ''@'' \<notin> set h" "lower h = h"
    using h by (auto simp: host_form_def)
  have s: "CHR ''/'' \<notin> set ow" "CHR ''/'' \<notin> set r" "ow \<noteq> []" "r \<noteq> []"
    using o r by (auto simp: segment_form_def)
  have parts: "url_parts p = [ow, r]"
    using s split_append_sep [of "CHR ''/''" "[]" "ow @ ''/'' @ r"]
      split_append_sep [of "CHR ''/''" ow r] by (simp add: split_no_sep url_parts_def p_def)
  have host: "url_host p = h"
    using c by (simp add: url_host_def split_no_sep p_def)
  have u: "\<not> truthy (username p)" "\<not> truthy (password p)"
    using c by (simp_all add: username_def password_def userinfo_def rpartition_def truthy_def p_def)
  have f: "scheme p = ''http'' \<or> scheme p = ''https''" "query p = []" "fragment p = []"
    by (simp_all add: p_def)
  have "normalize_repo_url chk hosts (''https://'' @ h @ ''/'' @ ow @ ''/'' @ r)
         = Inr (canonical (url_host p) (url_parts p ! 0) (strip_git (url_parts p ! 1)))"
    by (rule normalize_parsed [OF len pr f(1) u f(2,3)])
       (use hin g in \<open>simp_all add: host parts\<close>)
  then show ?thesis by (simp add: host parts)
qed

lemma segment_form_canonical_repo:
  assumes "segment_form r"
  shows "segment_form (strip_git r @ ''.git'')"
  using assms set_strip_git [of r] by (auto simp: segment_form_def UNSAFE_URL_BYTES_TO_REMOVE_def)

lemma strip_git_empty_iff: "strip_git s = [] \<longleftrightarrow> s = [] \<or> s = ''.git''"
proof
  assume e: "strip_git s = []"
  show "s = [] \<or> s = ''.git''"
  proof (cases "endswith s ''.git''")
    case True
    then obtain zs where z: "s = zs @ ''.git''"
      by (auto simp: endswith_def suffix_def)
    with e have "zs = []" by (simp add: strip_git_append)
    with z show ?thesis by simp
  next
    case False
    with e show ?thesis by (simp add: strip_git_def)
  qed
next
  assume "s = [] \<or> s = ''.git''"
  then show "strip_git s = []"
    using strip_git_append [of "[]"] by (auto simp: strip_git_def endswith_def)
qed

lemma urlparse_error: "urlparse chk u = Inl e \<Longrightarrow> \<exists>msg. e = ValueError msg"
  by (auto simp: urlparse_def urlsplit_def Let_def split: sum.splits if_splits prod.splits option.splits)

lemma normalize_repo_url_error: "normalize_repo_url chk hosts u = Inl e \<Longrightarrow> \<exists>msg. e = ValueError msg"
  by (auto simp: normalize_repo_url_def Let_def split: sum.splits if_splits dest: urlparse_error)

lemma url_parts_nonempty: "s \<in> set (url_parts p) \<Longrightarrow> s \<noteq> []"
  by (simp add: url_parts_def)

lemma normalize_fails_iff:
  "(\<exists>e. normalize_repo_url chk hosts raw = Inl e) \<longleftrightarrow>
     listed_failure chk hosts raw
     \<or> (\<exists>e. urlparse chk raw = Inl e)
     \<or> (\<exists>p. urlparse chk raw = Inr p \<and> 2 \<le> length (url_parts p) \<and> url_parts p ! 1 = ''.git'')"
proof (cases "urlparse chk raw")
  case (Inl e)
  then show ?thesis by (auto simp: normalize_repo_url_def)
next
  case (Inr p)
  have ne: "2 \<le> length (url_parts p) \<Longrightarrow> url_parts p ! 0 \<noteq> [] \<and> url_parts p ! 1 \<noteq> []"
    using url_parts_nonempty [of "url_parts p ! 0" p] url_parts_nonempty [of "url_parts p ! 1" p]
    by (cases "url_parts p"; cases "tl (url_parts p)") auto
  show ?thesis
    using Inr ne strip_git_empty_iff [of "url_parts p ! 1"]
    by (auto simp: normalize_repo_url_def listed_failure_def url_host_def [symmetric] url_parts_def [symmetric]
        strip_git_def [symmetric] Let_def not_less)
qed

subsection \<open>Claim C3: when normalisation fails\<close>

text \<open>
  Claim C3 says that \<open>normalize_repo_url\<close> fails exactly under the listed conditions and
  otherwise returns the canonical string. On the code the listed conditions are not all:
  \<open>https://github.com/owner/.git\<close> meets none of them and is rejected, because the repository
  segment is empty once its trailing \<open>.git\<close> is removed.
\<close>

theorem normalize_repo_url_dot_git_counterexample:
  "normalize_repo_url accept_bracketed DEFAULT_ALLOWED_GIT_HOSTS ''https://github.com/owner/.git''
     = Inl (ValueError ''Repo URL must include owner/repo'')
   \<and> \<not> listed_failure accept_bracketed DEFAULT_ALLOWED_GIT_HOSTS ''https://github.com/owner/.git''"
  by code_simp

text \<open>
  Claim C3, amended: \<open>normalize_repo_url\<close> fails exactly when one of the listed conditions
  holds, or the URL parser itself rejects the string, or the second non-empty path segment
  is exactly \<open>.git\<close>; every failure is a \<open>ValueError\<close>; and every result is the canonical
  string \<open>https://{host}/{owner}/{repo}.git\<close> built from the case-folded, port-stripped host,
  the first segment, and the second segment without one trailing \<open>.git\<close>.
\<close>

theorem normalize_repo_url_failure_cases:
  "((\<exists>e. normalize_repo_url chk hosts raw = Inl e) \<longleftrightarrow>
      listed_failure chk hosts raw
      \<or> (\<exists>e. urlparse chk raw = Inl e)
      \<or> (\<exists>p. urlparse chk raw = Inr p \<and> 2 \<le> length (url_parts p) \<and> url_parts p ! 1 = ''.git''))
   \<and> (\<forall>e. normalize_repo_url chk hosts raw = Inl e \<longrightarrow> (\<exists>msg. e = ValueError msg))
   \<and> (\<forall>v. normalize_repo_url chk hosts raw = Inr v \<longrightarrow>
         (\<exists>p. urlparse chk raw = Inr p
            \<and> v = canonical (url_host p) (url_parts p ! 0) (strip_git (url_parts p ! 1))))"
proof (intro conjI allI impI)
  show "(\<exists>e. normalize_repo_url chk hosts raw = Inl e) \<longleftrightarrow>
      listed_failure chk hosts raw
      \<or> (\<exists>e. urlparse chk raw = Inl e)
      \<or> (\<exists>p. urlparse chk raw = Inr p \<and> 2 \<le> length (url_parts p) \<and> url_parts p ! 1 = ''.git'')"
    by (rule normalize_fails_iff)
next
  fix e assume "normalize_repo_url chk hosts raw = Inl e"
  then show "\<exists>msg. e = ValueError msg" by (rule normalize_repo_url_error)
next
  fix v assume "normalize_repo_url chk hosts raw = Inr v"
  then show "\<exists>p. urlparse chk raw = Inr p
            \<and> v = canonical (url_host p) (url_parts p ! 0) (strip_git (url_parts p ! 1))"
    by (auto simp: normalize_repo_url_def url_host_def [symmetric] url_parts_def [symmetric]
        strip_git_def [symmetric] canonical_def Let_def split: sum.splits if_splits)
qed

theorem normalize_repo_url_failure_cases_witness:
  "normalize_repo_url accept_bracketed DEFAULT_ALLOWED_GIT_HOSTS ''https://GitHub.com:443/octocat/hello.git''
     = Inr ''https://github.com/octocat/hello.git''
   \<and> \<not> listed_failure accept_bracketed DEFAULT_ALLOWED_GIT_HOSTS ''https://GitHub.com:443/octocat/hello.git''
   \<and> normalize_repo_url accept_bracketed DEFAULT_ALLOWED_GIT_HOSTS ''ftp://github.com/octocat/hello''
     = Inl (ValueError ''Only http/https repo URLs are allowed'')
   \<and> listed_failure accept_bracketed DEFAULT_ALLOWED_GIT_HOSTS ''ftp://github.com/octocat/hello''"
proof -
  have a: "normalize_repo_url accept_bracketed DEFAULT_ALLOWED_GIT_HOSTS ''https://GitHub.com:443/octocat/hello.git''
     = Inr ''https://github.com/octocat/hello.git''"
    by code_simp
  have b: "\<not> listed_failure accept_bracketed DEFAULT_ALLOWED_GIT_HOSTS ''https://GitHub.com:443/octocat/hello.git''"
    by code_simp
  have c: "normalize_repo_url accept_bracketed DEFAULT_ALLOWED_GIT_HOSTS ''ftp://github.com/octocat/hello''
     = Inl (ValueError ''Only http/https repo URLs are allowed'')"
    by code_simp
  have d: "listed_failure accept_bracketed DEFAULT_ALLOWED_GIT_HOSTS ''ftp://github.com/octocat/hello''"
    by code_simp
  show ?thesis
    using normalize_repo_url_failure_cases [of accept_bracketed DEFAULT_ALLOWED_GIT_HOSTS
      "''ftp://github.com/octocat/hello''"] a b c d
    by blast
qed

subsection \<open>Claim C8: paths with more than two segments\<close>

text \<open>
  Claim C8 says that a URL whose path has three or more non-empty segments is rejected.
  The code only asks for at least two: \<open>https://github.com/owner/repo/tree/main\<close> has four
  and is accepted.
\<close>

theorem normalize_repo_url_extra_segments_counterexample:
  "urlparse accept_bracketed ''https://github.com/owner/repo/tree/main''
     = Inr \<lparr>scheme = ''https'', netloc = ''github.com'', path = ''/owner/repo/tree/main'',
            params = [], query = [], fragment = []\<rparr>
   \<and> url_parts \<lparr>scheme = ''https'', netloc = ''github.com'', path = ''/owner/repo/tree/main'',
            params = [], query = [], fragment = []\<rparr> = [''owner'', ''repo'', ''tree'', ''main'']
   \<and> normalize_repo_url accept_bracketed DEFAULT_ALLOWED_GIT_HOSTS ''https://github.com/owner/repo/tree/main''
     = Inr ''https://github.com/owner/repo.git''"
  by code_simp

text \<open>
  Claim C8, amended: a URL that passes the other checks and whose path has at least two
  non-empty segments, the second of them not \<open>.git\<close>, is accepted however many segments
  follow, and the result is built from the first two segments alone.
\<close>

theorem normalize_repo_url_first_two_segments:
  assumes "length raw \<le> 2048"
    and "urlparse chk raw = Inr p"
    and "scheme p = ''http'' \<or> scheme p = ''https''"
    and "\<not> truthy (username p)" and "\<not> truthy (password p)"
    and "query p = []" and "fragment p = []"
    and "url_host p \<in> hosts"
    and "2 \<le> length (url_parts p)"
    and "url_parts p ! 1 \<noteq> ''.git''"
  shows "normalize_repo_url chk hosts raw
         = Inr (canonical (url_host p) (url_parts p ! 0) (strip_git (url_parts p ! 1)))"
proof -
  have "url_parts p ! 1 \<in> set (url_parts p)"
    using assms(9) by (intro nth_mem) linarith
  then have "url_parts p ! 1 \<noteq> []"
    by (rule url_parts_nonempty)
  with assms(10) have "strip_git (url_parts p ! 1) \<noteq> []"
    by (simp add: strip_git_empty_iff)
  with assms show ?thesis
    by (intro normalize_parsed)
qed

theorem normalize_repo_url_first_two_segments_witness:
  "normalize_repo_url accept_bracketed DEFAULT_ALLOWED_GIT_HOSTS ''http://www.github.com/octocat/hello/issues/7/''
     = Inr ''https://www.github.com/octocat/hello.git''"
proof -
  let ?p = "\<lparr>scheme = ''http'', netloc = ''www.github.com'', path = ''/octocat/hello/issues/7/'',
            params = [], query = [], fragment = []\<rparr>"
  have "normalize_repo_url accept_bracketed DEFAULT_ALLOWED_GIT_HOSTS ''http://www.github.com/octocat/hello/issues/7/''
         = Inr (canonical (url_host ?p) (url_parts ?p ! 0) (strip_git (url_parts ?p ! 1)))"
    by (rule normalize_repo_url_first_two_segments) code_simp+
  moreover have "canonical (url_host ?p) (url_parts ?p ! 0) (strip_git (url_parts ?p ! 1))
      = ''https://www.github.com/octocat/hello.git''"
    by code_simp
  ultimately show ?thesis
    by (simp only:)
qed

subsection \<open>Claim C7: idempotence on canonical-form URLs\<close>

text \<open>
  Claim C7 says that every URL \<open>https://{allowed-host}/{owner}/{repo}\<close> is accepted and that
  normalising the result again gives the same string. Two URLs of this form show otherwise:
  with the repository segment \<open>.git\<close> the URL is rejected; and a URL of 2048 characters
  without a trailing \<open>.git\<close> is accepted, but its result is four characters longer and is
  rejected as too long.
\<close>

theorem normalize_repo_url_idempotence_counterexample:
  "normalize_repo_url accept_bracketed DEFAULT_ALLOWED_GIT_HOSTS ''https://github.com/octocat/.git''
     = Inl (ValueError ''Repo URL must include owner/repo'')
   \<and> normalize_repo_url accept_bracketed DEFAULT_ALLOWED_GIT_HOSTS
        (''https://github.com/o/'' @ replicate 2027 (CHR ''r''))
     = Inr (''https://github.com/o/'' @ replicate 2027 (CHR ''r'') @ ''.git'')
   \<and> normalize_repo_url accept_bracketed DEFAULT_ALLOWED_GIT_HOSTS
        (''https://github.com/o/'' @ replicate 2027 (CHR ''r'') @ ''.git'')
     = Inl (ValueError ''Repo URL is too long'')"
proof (intro conjI)
  show "normalize_repo_url accept_bracketed DEFAULT_ALLOWED_GIT_HOSTS ''https://github.com/octocat/.git''
     = Inl (ValueError ''Repo URL must include owner/repo'')"
    by code_simp
  let ?r = "replicate 2027 (CHR ''r'')"
  have sr: "set ?r = {CHR ''r''}" by simp
  have "\<not> suffix ''.git'' ?r"
  proof
    assume "suffix ''.git'' ?r"
    then have "set ''.git'' \<subseteq> set ?r" by (rule set_mono_suffix)
    then show False unfolding sr by simp
  qed
  then have g: "strip_git ?r = ?r"
    by (simp add: strip_git_def endswith_def)
  have "normalize_repo_url accept_bracketed DEFAULT_ALLOWED_GIT_HOSTS
          (''https://'' @ ''github.com'' @ ''/'' @ ''o'' @ ''/'' @ ?r)
        = Inr (canonical ''github.com'' ''o'' (strip_git ?r))"
  proof (rule normalize_form)
    show "host_form ''github.com''"
      by code_simp
    show "''github.com'' \<in> DEFAULT_ALLOWED_GIT_HOSTS"
      by (simp add: DEFAULT_ALLOWED_GIT_HOSTS_def)
    show "segment_form ''o''"
      by code_simp
    show "segment_form ?r"
      unfolding segment_form_def sr by (simp add: UNSAFE_URL_BYTES_TO_REMOVE_def)
    show "strip_git ?r \<noteq> []"
      unfolding g by simp
    show "length (''https://'' @ ''github.com'' @ ''/'' @ ''o'' @ ''/'' @ ?r) \<le> 2048"
      by simp
  qed
  then show "normalize_repo_url accept_bracketed DEFAULT_ALLOWED_GIT_HOSTS
        (''https://github.com/o/'' @ ?r)
     = Inr (''https://github.com/o/'' @ ?r @ ''.git'')"
    unfolding g by (simp add: canonical_def)
  show "normalize_repo_url accept_bracketed DEFAULT_ALLOWED_GIT_HOSTS
        (''https://github.com/o/'' @ ?r @ ''.git'')
     = Inl (ValueError ''Repo URL is too long'')"
    by (simp add: normalize_repo_url_def)
qed

text \<open>
  Claim C7, amended: for every URL \<open>https://{allowed-host}/{owner}/{repo}\<close> whose host and
  segments are of the form above, whose repository segment is not \<open>.git\<close> alone, and whose
  canonical string has at most 2048 characters, \<open>normalize_repo_url\<close> returns the canonical
  string, and returns it again when applied to it.
\<close>

theorem normalize_idempotent_form:
  assumes h: "host_form h" and hin: "h \<in> hosts" and o: "segment_form ow" and r: "segment_form r"
    and g: "strip_git r \<noteq> []"
    and len: "length (canonical h ow (strip_git r)) \<le> 2048"
  shows "normalize_repo_url chk hosts (''https://'' @ h @ ''/'' @ ow @ ''/'' @ r)
           = Inr (canonical h ow (strip_git r))
       \<and> normalize_repo_url chk hosts (canonical h ow (strip_git r))
           = Inr (canonical h ow (strip_git r))"
proof
  have "length (''https://'' @ h @ ''/'' @ ow @ ''/'' @ r) \<le> length (canonical h ow (strip_git r))"
    using length_strip_git [of r] by (simp add: canonical_def)
  then have len1: "length (''https://'' @ h @ ''/'' @ ow @ ''/'' @ r) \<le> 2048"
    using len by linarith
  show "normalize_repo_url chk hosts (''https://'' @ h @ ''/'' @ ow @ ''/'' @ r)
           = Inr (canonical h ow (strip_git r))"
    by (rule normalize_form [OF h hin o r g len1])
  have len2: "length (''https://'' @ h @ ''/'' @ ow @ ''/'' @ (strip_git r @ ''.git'')) \<le> 2048"
    using len by (simp add: canonical_def)
  have "normalize_repo_url chk hosts (''https://'' @ h @ ''/'' @ ow @ ''/'' @ (strip_git r @ ''.git''))
        = Inr (canonical h ow (strip_git (strip_git r @ ''.git'')))"
    by (rule normalize_form [OF h hin o segment_form_canonical_repo [OF r] _ len2])
       (simp add: strip_git_append g)
  then show "normalize_repo_url chk hosts (canonical h ow (strip_git r))
           = Inr (canonical h ow (strip_git r))"
    by (simp add: canonical_def strip_git_append)
qed

theorem normalize_repo_url_idempotent_witness:
  "normalize_repo_url accept_bracketed DEFAULT_ALLOWED_GIT_HOSTS ''https://github.com/octocat/hello''
     = Inr ''https://github.com/octocat/hello.git''
   \<and> normalize_repo_url accept_bracketed DEFAULT_ALLOWED_GIT_HOSTS ''https://github.com/octocat/hello.git''
     = Inr ''https://github.com/octocat/hello.git''"
proof -
  have 1: "host_form ''github.com''"
    by code_simp
  have 2: "''github.com'' \<in> DEFAULT_ALLOWED_GIT_HOSTS"
    by (simp add: DEFAULT_ALLOWED_GIT_HOSTS_def)
  have 3: "segment_form ''octocat''" "segment_form ''hello''"
    by code_simp+
  have 4: "strip_git ''hello'' \<noteq> []"
    by code_simp
  have 5: "length (canonical ''github.com'' ''octocat'' (strip_git ''hello'')) \<le> 2048"
    by code_simp
  have 6: "canonical ''github.com'' ''octocat'' (strip_git ''hello'') = ''https://github.com/octocat/hello.git''"
    by code_simp
  show ?thesis
    using normalize_idempotent_form [OF 1 2 3 4 5, of accept_bracketed]
    unfolding 6 by simp
qed

section \<open>Properties of the tree collector\<close>

subsection \<open>Auxiliary facts\<close>

lemma is_binary_chunk:
  "is_binary_file (Some bs) n =
     (if take n bs = [] then Inr False else Inr (binary_sample (take n bs)))"
proof -
  define chunk where "chunk = take n bs"
  let ?k = "length (filter (\<lambda>b. \<not> text_chars b) chunk)"
  let ?l = "length chunk"
  have r: "(3 / 10 < (of_nat ?k / of_nat ?l :: rat)) \<longleftrightarrow> 30 * ?l < 100 * ?k" if "chunk \<noteq> []"
  proof -
    have l: "(0::rat) < of_nat ?l" using that by simp
    have "(3 / 10 < (of_nat ?k / of_nat ?l :: rat)) \<longleftrightarrow> (3 / 10) * of_nat ?l < (of_nat ?k :: rat)"
      using l by (simp add: pos_less_divide_eq)
    also have "\<dots> \<longleftrightarrow> (of_nat (30 * ?l) :: rat) < of_nat (100 * ?k)"
      by (simp add: field_simps)
    also have "\<dots> \<longleftrightarrow> 30 * ?l < 100 * ?k"
      by (rule of_nat_less_iff)
    finally show ?thesis .
  qed
  have "(let chunk = chunk
         in if chunk = [] then Inr False
            else if 0 \<in> set chunk then Inr True
            else
              (let non_text = length (filter (\<lambda>b. \<not> text_chars b) chunk)
               in case true_div non_text (length chunk) of
                    Inl e \<Rightarrow> Inl e
                  | Inr ratio \<Rightarrow> Inr (ratio > 3 / 10)))
        = (if chunk = [] then Inr False else Inr (binary_sample chunk))"
    using r by (auto simp: binary_sample_def true_div_def Let_def)
  then show ?thesis
    unfolding chunk_def by (simp add: is_binary_file_def)
qed

lemma binary_sample_Nil: "\<not> binary_sample []"
  by (simp add: binary_sample_def)

lemma is_binary_file_sample:
  "is_binary_file (Some bs) n = Inr (binary_sample (take n bs))"
  using binary_sample_Nil by (simp add: is_binary_chunk)

lemma is_binary_file_total: "\<exists>b. is_binary_file opened n = Inr b"
proof (cases opened)
  case None
  then show ?thesis by (auto simp: is_binary_file_def)
next
  case (Some bs)
  then show ?thesis by (simp add: is_binary_file_sample)
qed

lemma collect_file_File:
  "collect_file m name p (length bs) (Some bs) =
     Inr (FileNode name p,
          if binary_sample (take 1024 bs)
          then \<lparr>rec_path = p, rec_size = length bs, omitted = True,
                omittedReason = Some ''binary'', content = None\<rparr>
          else if int (length bs) > m
          then \<lparr>rec_path = p, rec_size = length bs, omitted = True,
                omittedReason = Some ''large'', content = None\<rparr>
          else \<lparr>rec_path = p, rec_size = length bs, omitted = False,
                omittedReason = None, content = Some (read_text bs)\<rparr>)"
  by (simp add: collect_file_def is_binary_file_sample)

lemma collect_file_LockedFile:
  "collect_file m name p n None =
     Inr (FileNode name p,
          \<lparr>rec_path = p, rec_size = n, omitted = True,
           omittedReason = Some ''binary'', content = None\<rparr>)"
  by (simp add: collect_file_def is_binary_file_def)

lemma collect_total:
  "\<exists>r. recursively_collect m root_dir rel = Inr r"
  "\<exists>r. collect_entries m es rel = Inr r"
proof (induction m root_dir rel and m es rel rule: recursively_collect_collect_entries.induct)
  case (1 max_file_bytes root_dir rel_path)
  then show ?case by simp
next
  case (2 max_file_bytes rel_path)
  then show ?case by simp
next
  case (3 m name e others rel_path)
  show ?case
  proof (cases "contains_skipped_segment (rel_path @ [name])")
    case True
    with 3(1) show ?thesis by simp
  next
    case ns: False
    show ?thesis
    proof (cases e)
      case (File bs)
      with ns 3(3) [OF ns _ refl File collect_file_File refl] show ?thesis
        by (auto simp: collect_file_File Let_def)
    next
      case (LockedFile n)
      with ns 3(4) [OF ns _ refl LockedFile collect_file_LockedFile refl] show ?thesis
        by (auto simp: collect_file_LockedFile Let_def)
    next
      case (Dir es)
      from ns Dir 3(5) [OF ns _ refl Dir] obtain ct cf
        where c: "recursively_collect m es (rel_path @ [name]) = Inr (ct, cf)"
        by auto
      from ns Dir 3(6) [OF ns _ refl Dir c refl] obtain t f
        where "collect_entries m others rel_path = Inr (t, f)"
        by auto
      with ns Dir c show ?thesis by (simp add: Let_def)
    next
      case Symlink
      with ns 3(2) show ?thesis by simp
    next
      case Special
      with ns 3(8) [OF ns _ refl Special] show ?thesis by (simp add: Let_def)
    qed
  qed
qed

lemma collect_entries_skipped:
  "contains_skipped_segment (rel @ [name]) \<Longrightarrow>
     collect_entries m ((name, e) # others) rel = collect_entries m others rel"
  by simp

lemma collect_entries_Symlink:
  "collect_entries m ((name, Symlink) # others) rel = collect_entries m others rel"
  by simp

lemma collect_entries_Special:
  "collect_entries m ((name, Special) # others) rel = collect_entries m others rel"
  by (simp add: Let_def)

lemma collect_entries_File:
  assumes "\<not> contains_skipped_segment (rel @ [name])"
    and "collect_entries m others rel = Inr (t, f)"
  shows "collect_entries m ((name, File bs) # others) rel =
     Inr (FileNode name (lstrip ''./'' (as_posix (rel @ [name]))) # t,
          record_of_file m (lstrip ''./'' (as_posix (rel @ [name]))) bs # f)"
  using assms by (simp add: Let_def collect_file_File record_of_file_def)

lemma collect_entries_LockedFile:
  assumes "\<not> contains_skipped_segment (rel @ [name])"
    and "collect_entries m others rel = Inr (t, f)"
  shows "collect_entries m ((name, LockedFile n) # others) rel =
     Inr (FileNode name (lstrip ''./'' (as_posix (rel @ [name]))) # t,
          \<lparr>rec_path = lstrip ''./'' (as_posix (rel @ [name])), rec_size = n, omitted = True,
           omittedReason = Some ''binary'', content = None\<rparr> # f)"
  using assms by (simp add: Let_def collect_file_LockedFile)

lemma collect_entries_Dir:
  assumes "\<not> contains_skipped_segment (rel @ [name])"
    and "recursively_collect m es (rel @ [name]) = Inr (ct, cf)"
    and "collect_entries m others rel = Inr (t, f)"
  shows "collect_entries m ((name, Dir es) # others) rel =
     Inr (DirectoryNode name (lstrip ''./'' (as_posix (rel @ [name]))) ct # t, cf @ f)"
  using assms by (simp add: Let_def)

lemma collect_entries_cases:
  obtains
    (passed) "contains_skipped_segment (rel @ [name]) \<or> e = Symlink \<or> e = Special"
      and "collect_entries m ((name, e) # others) rel = collect_entries m others rel"
  | (regular) bs t f where "\<not> contains_skipped_segment (rel @ [name])" and "e = File bs"
      and "collect_entries m others rel = Inr (t, f)"
      and "collect_entries m ((name, e) # others) rel =
         Inr (FileNode name (lstrip ''./'' (as_posix (rel @ [name]))) # t,
              record_of_file m (lstrip ''./'' (as_posix (rel @ [name]))) bs # f)"
  | (locked) n t f where "\<not> contains_skipped_segment (rel @ [name])" and "e = LockedFile n"
      and "collect_entries m others rel = Inr (t, f)"
      and "collect_entries m ((name, e) # others) rel =
         Inr (FileNode name (lstrip ''./'' (as_posix (rel @ [name]))) # t,
              \<lparr>rec_path = lstrip ''./'' (as_posix (rel @ [name])), rec_size = n, omitted = True,
               omittedReason = Some ''binary'', content = None\<rparr> # f)"
  | (directory) es ct cf t f where "\<not> contains_skipped_segment (rel @ [name])" and "e = Dir es"
      and "recursively_collect m es (rel @ [name]) = Inr (ct, cf)"
      and "collect_entries m others rel = Inr (t, f)"
      and "collect_entries m ((name, e) # others) rel =
         Inr (DirectoryNode name (lstrip ''./'' (as_posix (rel @ [name]))) ct # t, cf @ f)"
proof -
  obtain t f where o: "collect_entries m others rel = Inr (t, f)"
    using collect_total(2) [of m others rel] by auto
  show ?thesis
  proof (cases "contains_skipped_segment (rel @ [name])")
    case True
    then show ?thesis using passed collect_entries_skipped by blast
  next
    case ns: False
    show ?thesis
    proof (cases e)
      case (File bs)
      then show ?thesis using regular [OF ns File o] collect_entries_File [OF ns o] by blast
    next
      case (LockedFile n)
      then show ?thesis using locked [OF ns LockedFile o] collect_entries_LockedFile [OF ns o] by blast
    next
      case (Dir es)
      obtain ct cf where c: "recursively_collect m es (rel @ [name]) = Inr (ct, cf)"
        using collect_total(1) [of m es "rel @ [name]"] by auto
      show ?thesis using directory [OF ns Dir c o] collect_entries_Dir [OF ns c o] Dir by blast
    next
      case Symlink
      then show ?thesis using passed collect_entries_Symlink by blast
    next
      case Special
      then show ?thesis using passed collect_entries_Special by blast
    qed
  qed
qed

declare collect_entries.simps(2) [simp del]

lemma collect_entries_member:
  assumes "(name, File bs) \<in> set es"
    and "\<not> contains_skipped_segment (rel @ [name])"
    and "collect_entries m es rel = Inr (t, f)"
  shows "FileNode name (lstrip ''./'' (as_posix (rel @ [name]))) \<in> set t
       \<and> record_of_file m (lstrip ''./'' (as_posix (rel @ [name]))) bs \<in> set f"
  using assms
proof (induction es arbitrary: t f)
  case Nil
  then show ?case by simp
next
  case (Cons x es)
  obtain n e where x: "x = (n, e)" by (cases x)
  show ?case
  proof (cases "x = (name, File bs)")
    case True
    obtain t' f' where o: "collect_entries m es rel = Inr (t', f')"
      using collect_total(2) [of m es rel] by auto
    from Cons.prems(3) collect_entries_File [OF Cons.prems(2) o, of bs] True
    show ?thesis by auto
  next
    case False
    with Cons.prems(1) have mem: "(name, File bs) \<in> set es" by simp
    show ?thesis
    proof (cases rule: collect_entries_cases [of rel n e m es])
      case passed
      with Cons.IH [OF mem Cons.prems(2)] Cons.prems(3) x show ?thesis by simp
    next
      case (regular bs' t' f')
      with Cons.IH [OF mem Cons.prems(2) regular(3)] Cons.prems(3) x show ?thesis by auto
    next
      case (locked k t' f')
      with Cons.IH [OF mem Cons.prems(2) locked(3)] Cons.prems(3) x show ?thesis by auto
    next
      case (directory ds ct cf t' f')
      with Cons.IH [OF mem Cons.prems(2) directory(4)] Cons.prems(3) x show ?thesis by auto
    qed
  qed
qed

lemma locations_append: "locations rel (xs @ ys) = locations rel xs @ locations rel ys"
  by (induction rel xs rule: locations.induct) auto

lemma file_nodes_append: "file_nodes (xs @ ys) = file_nodes xs @ file_nodes ys"
  by (induction xs rule: file_nodes.induct) auto

lemma collect_shape:
  "recursively_collect m root_dir rel = Inr (nodes, records) \<Longrightarrow>
     (\<forall>loc \<in> set (locations rel nodes). \<not> contains_skipped_segment loc)
     \<and> map rec_path records = map tree_path (file_nodes nodes)"
  "collect_entries m es rel = Inr (nodes, records) \<Longrightarrow>
     (\<forall>loc \<in> set (locations rel nodes). \<not> contains_skipped_segment loc)
     \<and> map rec_path records = map tree_path (file_nodes nodes)"
proof (induction m root_dir rel and m es rel arbitrary: nodes records and nodes records
    rule: recursively_collect_collect_entries.induct)
  case (1 m root_dir rel)
  then show ?case by simp
next
  case (2 m rel)
  then show ?case by simp
next
  case (3 m name e others rel)
  show ?case
  proof (cases rule: collect_entries_cases [of rel name e m others])
    case passed
    have o: "collect_entries m others rel = Inr (nodes, records)"
      using 3(9) passed(2) by simp
    show ?thesis
    proof (cases "contains_skipped_segment (rel @ [name])")
      case True
      show ?thesis by (rule 3(1) [OF True o])
    next
      case ns: False
      with passed(1) consider "e = Symlink" | "e = Special" by blast
      then show ?thesis
      proof cases
        case 1
        show ?thesis by (rule 3(2) [OF ns 1 o])
      next
        case 2
        have ne: "e \<noteq> Symlink" using 2 by simp
        show ?thesis by (rule 3(8) [OF ns ne refl 2 o])
      qed
    qed
  next
    case (regular bs t f)
    have ne: "e \<noteq> Symlink" using regular(2) by simp
    from 3(3) [OF regular(1) ne refl regular(2) collect_file_File refl regular(3)] regular 3(9)
    show ?thesis by (auto simp: record_of_file_def)
  next
    case (locked n t f)
    have ne: "e \<noteq> Symlink" using locked(2) by simp
    from 3(4) [OF locked(1) ne refl locked(2) collect_file_LockedFile refl locked(3)] locked 3(9)
    show ?thesis by auto
  next
    case (directory ds ct cf t f)
    have ne: "e \<noteq> Symlink" using directory(2) by simp
    from 3(5) [OF directory(1) ne refl directory(2)]
      3(6) [OF directory(1) ne refl directory(2) directory(3) refl directory(4)]
      directory 3(9)
    show ?thesis by (auto simp: locations_append file_nodes_append)
  qed
qed

subsection \<open>Claim C5: how a regular file is recorded\<close>



subsection \<open>Claim C6: skipped segments\<close>

text \<open>
  Claim C6. No path with a segment in the skip-set is the path of an entry for which the
  collector emits a tree node, at any depth; and the file records are, in order, the
  records of the file nodes of the tree, so none belongs to such an entry either.
\<close>

theorem skipped_segments_pruned:
  assumes "recursively_collect m root_dir rel = Inr (nodes, records)"
  shows "(\<forall>loc. contains_skipped_segment loc \<longrightarrow> loc \<notin> set (locations rel nodes))
       \<and> map rec_path records = map tree_path (file_nodes nodes)"
  using collect_shape(1) [OF assms] by blast

theorem skipped_segments_pruned_witness:
  "recursively_collect 512000
      [(''src'', Dir [(''main.txt'', File [104, 105]),
                      (''node_modules'', Dir [(''x.txt'', File [115])])]),
       (''.git'', Dir [(''config'', File [99])])] []
    = Inr ([DirectoryNode ''src'' ''src'' [FileNode ''main.txt'' ''src/main.txt'']],
           [\<lparr>rec_path = ''src/main.txt'', rec_size = 2, omitted = False,
              omittedReason = None, content = Some [104, 105]\<rparr>])
   \<and> contains_skipped_segment [''src'', ''node_modules'', ''x.txt'']
   \<and> [''src'', ''node_modules'', ''x.txt'']
        \<notin> set (locations [] [DirectoryNode ''src'' ''src'' [FileNode ''main.txt'' ''src/main.txt'']])"
proof -
  have a: "recursively_collect 512000
      [(''src'', Dir [(''main.txt'', File [104, 105]),
                      (''node_modules'', Dir [(''x.txt'', File [115])])]),
       (''.git'', Dir [(''config'', File [99])])] []
    = Inr ([DirectoryNode ''src'' ''src'' [FileNode ''main.txt'' ''src/main.txt'']],
           [\<lparr>rec_path = ''src/main.txt'', rec_size = 2, omitted = False,
              omittedReason = None, content = Some [104, 105]\<rparr>])"
    by code_simp
  have b: "contains_skipped_segment [''src'', ''node_modules'', ''x.txt'']"
    by code_simp
  show ?thesis
    using skipped_segments_pruned [OF a] a b by blast
qed

subsection \<open>Claim C9: the recorded path\<close>

text \<open>
  Claim C9 says that the recorded path of a top-level entry is its name, leading dots
  included. The source strips the path with \<open>lstrip('./')\<close>, which removes every leading dot
  and slash rather than a leading \<open>./\<close>: the file \<open>.gitignore\<close> is recorded under the path
  \<open>gitignore\<close>, while the name of its node is \<open>.gitignore\<close>.
\<close>

theorem recorded_path_loses_leading_dots:
  "recursively_collect 512000 [(''.gitignore'', File [42])] []
    = Inr ([FileNode ''.gitignore'' ''gitignore''],
           [\<lparr>rec_path = ''gitignore'', rec_size = 1, omitted = False,
              omittedReason = None, content = Some [42]\<rparr>])"
  by code_simp

subsection \<open>Claim C10: empty files\<close>

text \<open>
  Claim C10. For an empty file \<open>is_binary_file\<close> answers \<open>False\<close>; it never raises
  \<open>ZeroDivisionError\<close>, whatever the file, so the division is not reached on an empty sample;
  and with a ceiling that is not negative the record of an empty file the collector visits
  is not omitted and its content is the empty string.
\<close>

theorem empty_file_is_text:
  "is_binary_file (Some []) n = Inr False
   \<and> is_binary_file opened n \<noteq> Inl ZeroDivisionError
   \<and> (0 \<le> m \<and> (name, File []) \<in> set root_dir \<and> \<not> contains_skipped_segment (rel @ [name]) \<longrightarrow>
        (\<exists>nodes records.
           recursively_collect m root_dir rel = Inr (nodes, records)
           \<and> \<lparr>rec_path = lstrip ''./'' (as_posix (rel @ [name])), rec_size = 0, omitted = False,
               omittedReason = None, content = Some []\<rparr> \<in> set records))"
proof (intro conjI impI)
  show "is_binary_file (Some []) n = Inr False"
    by (simp add: is_binary_file_def)
  show "is_binary_file opened n \<noteq> Inl ZeroDivisionError"
    using is_binary_file_total [of opened n] by auto
next
  assume h: "0 \<le> m \<and> (name, File []) \<in> set root_dir \<and> \<not> contains_skipped_segment (rel @ [name])"
  obtain nodes records where c: "recursively_collect m root_dir rel = Inr (nodes, records)"
    using collect_total(1) [of m root_dir rel] by auto
  have mem: "(name, File []) \<in> set (sort_key (\<lambda>p. lower (fst p)) root_dir)"
    using h by simp
  have ns: "\<not> contains_skipped_segment (rel @ [name])"
    using h by simp
  have c': "collect_entries m (sort_key (\<lambda>p. lower (fst p)) root_dir) rel = Inr (nodes, records)"
    using c by simp
  have "record_of_file m (lstrip ''./'' (as_posix (rel @ [name]))) [] \<in> set records"
    using collect_entries_member [OF mem ns c'] by simp
  moreover have "record_of_file m (lstrip ''./'' (as_posix (rel @ [name]))) []
      = \<lparr>rec_path = lstrip ''./'' (as_posix (rel @ [name])), rec_size = 0, omitted = False,
               omittedReason = None, content = Some []\<rparr>"
    using h by (simp add: record_of_file_def binary_sample_def read_text_def)
  ultimately show "\<exists>nodes records.
           recursively_collect m root_dir rel = Inr (nodes, records)
           \<and> \<lparr>rec_path = lstrip ''./'' (as_posix (rel @ [name])), rec_size = 0, omitted = False,
               omittedReason = None, content = Some []\<rparr> \<in> set records"
    using c by auto
qed

theorem empty_file_is_text_witness:
  "is_binary_file (Some []) 1024 = Inr False
   \<and> recursively_collect 512000 [(''empty.txt'', File [])] []
      = Inr ([FileNode ''empty.txt'' ''empty.txt''],
             [\<lparr>rec_path = ''empty.txt'', rec_size = 0, omitted = False,
                omittedReason = None, content = Some []\<rparr>])
   \<and> \<not> contains_skipped_segment ([] @ [''empty.txt''])"
proof -
  have a: "recursively_collect 512000 [(''empty.txt'', File [])] []
      = Inr ([FileNode ''empty.txt'' ''empty.txt''],
             [\<lparr>rec_path = ''empty.txt'', rec_size = 0, omitted = False,
                omittedReason = None, content = Some []\<rparr>])"
    by code_simp
  have b: "\<not> contains_skipped_segment ([] @ [''empty.txt''])"
    by code_simp
  show ?thesis
    using empty_file_is_text [of 1024 None 512000 "''empty.txt''" "[(''empty.txt'', File [])]" "[]"] a b
    by blast
qed

section \<open>Properties of the archive sanitizer\<close>

subsection \<open>Auxiliary facts\<close>

lemma check_members_error:
  "check_members root_parts max_total running infos = Inl e \<Longrightarrow> \<exists>msg. e = ValueError msg"
  by (induction infos arbitrary: running) (auto split: if_splits)

lemma check_members_over:
  assumes "infos \<noteq> [] \<or> running \<le> max_total"
    and "max_total < running + sum_list (map file_size infos)"
  shows "\<exists>msg. check_members root_parts max_total running infos = Inl (ValueError msg)"
  using assms
proof (induction infos arbitrary: running)
  case Nil
  then show ?case by simp
next
  case (Cons info infos)
  show ?case
  proof (cases "running + file_size info > max_total")
    case True
    then show ?thesis by simp
  next
    case False
    then have le: "infos \<noteq> [] \<or> running + file_size info \<le> max_total" by simp
    from Cons.prems have "max_total < (running + file_size info) + sum_list (map file_size infos)"
      by simp
    from Cons.IH [OF le this] show ?thesis by simp
  qed
qed

lemma check_members_escape:
  assumes "info \<in> set infos"
    and "\<not> startswith (str_path (resolve (joinpath root_parts (filename info)))) (str_path root_parts)"
  shows "\<exists>msg. check_members root_parts max_total running infos = Inl (ValueError msg)"
  using assms by (induction infos arbitrary: running) auto

lemma safe_extract_zip_rejects_unchanged:
  assumes "check_members destination max_total 0 (map fst archive) = Inl e"
  shows "safe_extract_zip (Archive archive) destination max_total es = (Inl e, es)"
  using assms by (simp add: safe_extract_zip_def)

subsection \<open>Claim C2: the ceiling on the declared sizes\<close>

text \<open>
  Claim C2. When the declared sizes of the members of an archive add up to more than the
  ceiling \<open>max_total_bytes\<close>, \<open>safe_extract_zip\<close> fails with a \<open>ValueError\<close> and the destination
  is as it was: nothing has been extracted. Only the declared sizes enter, whatever bytes
  the members hold. The archive has a member or the ceiling is not negative: of an archive
  without members nothing adds up, and it passes under any ceiling.
\<close>

theorem oversized_archive_rejected_before_extraction:
  assumes "archive \<noteq> [] \<or> 0 \<le> max_total_bytes"
    and "max_total_bytes < sum_list (map (\<lambda>m. file_size (fst m)) archive)"
  shows "\<exists>msg. safe_extract_zip (Archive archive) destination max_total_bytes es
               = (Inl (ValueError msg), es)"
proof -
  have "max_total_bytes < 0 + sum_list (map file_size (map fst archive))"
    using assms(2) by (simp add: comp_def)
  moreover have "map fst archive \<noteq> [] \<or> 0 \<le> max_total_bytes"
    using assms(1) by simp
  ultimately obtain msg
    where "check_members destination max_total_bytes 0 (map fst archive) = Inl (ValueError msg)"
    using check_members_over [of "map fst archive" 0 max_total_bytes destination] by blast
  then show ?thesis
    by (auto simp: safe_extract_zip_def)
qed

theorem oversized_archive_rejected_witness:
  "(1000 :: int) < sum_list (map (\<lambda>m. file_size (fst m))
       [(\<lparr>filename = ''a.txt'', external_attr = 0, file_size = 600\<rparr>, [97 :: byte]),
        (\<lparr>filename = ''b.txt'', external_attr = 0, file_size = 600\<rparr>, [98])])
   \<and> safe_extract_zip
        (Archive [(\<lparr>filename = ''a.txt'', external_attr = 0, file_size = 600\<rparr>, [97 :: byte]),
                  (\<lparr>filename = ''b.txt'', external_attr = 0, file_size = 600\<rparr>, [98])])
        [''tmp'', ''ws'', ''project''] 1000 []
      = (Inl (ValueError ''Zip exceeds allowed total size''), [])"
proof -
  have a: "(1000 :: int) < sum_list (map (\<lambda>m. file_size (fst m))
       [(\<lparr>filename = ''a.txt'', external_attr = 0, file_size = 600\<rparr>, [97 :: byte]),
        (\<lparr>filename = ''b.txt'', external_attr = 0, file_size = 600\<rparr>, [98])])"
    by code_simp
  have b: "safe_extract_zip
        (Archive [(\<lparr>filename = ''a.txt'', external_attr = 0, file_size = 600\<rparr>, [97 :: byte]),
                  (\<lparr>filename = ''b.txt'', external_attr = 0, file_size = 600\<rparr>, [98])])
        [''tmp'', ''ws'', ''project''] 1000 []
      = (Inl (ValueError ''Zip exceeds allowed total size''), [])"
    by code_simp
  have c: "[(\<lparr>filename = ''a.txt'', external_attr = 0, file_size = 600\<rparr>, [97 :: byte]),
            (\<lparr>filename = ''b.txt'', external_attr = 0, file_size = 600\<rparr>, [98])] \<noteq> []
           \<or> (0 :: int) \<le> 1000"
    by simp
  show ?thesis
    using oversized_archive_rejected_before_extraction [OF c a, of "[''tmp'', ''ws'', ''project'']" "[]"] a b
    by blast
qed

subsection \<open>Claim C1: members outside the destination\<close>

text \<open>
  Claim C1 says that an archive with a member whose resolved path leaves the destination is
  rejected and nothing is written. The source compares the two paths as strings with
  \<open>startswith\<close>, so a path into a sibling directory whose name begins with the name of the
  destination passes: with the destination \<open>/tmp/ws/project\<close> the member
  \<open>../project_evil/x.txt\<close> resolves to \<open>/tmp/ws/project_evil/x.txt\<close>, outside the destination,
  and the archive is accepted and extracted.
\<close>

theorem sibling_directory_member_accepted:
  "\<not> stays_within [''tmp'', ''ws'', ''project''] ''../project_evil/x.txt''
   \<and> safe_extract_zip
        (Archive [(\<lparr>filename = ''../project_evil/x.txt'', external_attr = 0, file_size = 1\<rparr>, [65])])
        [''tmp'', ''ws'', ''project''] 1000 []
      = (Inr (), [(''project_evil'', Dir [(''x.txt'', File [65])])])"
  by code_simp

section \<open>Properties of the ingestion orchestrator\<close>

subsection \<open>Auxiliary facts\<close>






subsection \<open>Claim C4: a request with both a URL and an archive\<close>




end
